theory Spec2Isabelle
  imports Main
begin

section \<open>The Turing machine model of utm_visualizer.py\<close>

text \<open>
  Python text is modelled as \<^typ>\<open>string\<close>, one \<^typ>\<open>char\<close> per code point in the
  range 0..255.  A tape cell holds a Python \<open>str\<close> (\<open>list(tape_str)\<close> yields strings of
  length one, but \<open>write\<close> comes from the table and may be any string), so a symbol is a
  \<^typ>\<open>string\<close> and the tape is a \<^typ>\<open>string list\<close>.  The head is a Python \<open>int\<close>.
\<close>

type_synonym symbol = string
type_synonym label = string
type_synonym table = "(label \<times> symbol) \<rightharpoonup> (symbol \<times> string \<times> label)"

record machine =
  blank :: symbol
  tape :: "symbol list"
  head :: int
  start_state :: label
  state :: label
  accept_state :: label
  reject_state :: label
  transitions :: table

text \<open>The exceptions the modelled code can raise.\<close>

datatype error =
  IndexError
  | NotEnoughValues nat nat  \<comment> \<open>ValueError: not enough values to unpack (expected, got)\<close>
  | TooManyValues nat        \<comment> \<open>ValueError: too many values to unpack (expected)\<close>

subsection \<open>Python list and string primitives\<close>

text \<open>\<open>list(s)\<close> for a \<open>str\<close>: the list of its one-character strings.\<close>

definition py_list :: "string \<Rightarrow> symbol list" where
  "py_list s = map (\<lambda>c. [c]) s"

text \<open>
  \<open>xs[i]\<close> and \<open>xs[i] = v\<close>: an index below zero counts from the end, an index outside
  \<open>-len(xs) .. len(xs)-1\<close> raises IndexError.
\<close>

definition py_pos :: "'a list \<Rightarrow> int \<Rightarrow> nat option" where
  "py_pos xs i =
     (if 0 \<le> i \<and> i < int (length xs) then Some (nat i)
      else if i < 0 \<and> - int (length xs) \<le> i then Some (nat (int (length xs) + i))
      else None)"

definition py_getitem :: "'a list \<Rightarrow> int \<Rightarrow> error + 'a" where
  "py_getitem xs i = (case py_pos xs i of None \<Rightarrow> Inl IndexError | Some k \<Rightarrow> Inr (xs ! k))"

definition py_setitem :: "'a list \<Rightarrow> int \<Rightarrow> 'a \<Rightarrow> error + 'a list" where
  "py_setitem xs i v = (case py_pos xs i of None \<Rightarrow> Inl IndexError | Some k \<Rightarrow> Inr (xs[k := v]))"

text \<open>
  \<open>str.upper()\<close> and \<open>str.lower()\<close> on code points 0..255.  The letters a..z and the
  Latin-1 letters 0xE0..0xFE (without 0xF7) have their capitals 32 places below;
  0xDF uppercases to the two letters SS.  The capitals of 0xB5 and 0xFF lie above 255
  and are not representable here: these two characters are kept as they are, which
  agrees with Python on every comparison against an ASCII word.
\<close>

definition upper_char :: "char \<Rightarrow> string" where
  "upper_char c =
     (let n = of_char c :: nat in
      if (97 \<le> n \<and> n \<le> 122) \<or> (224 \<le> n \<and> n \<le> 254 \<and> n \<noteq> 247) then [char_of (n - 32)]
      else if n = 223 then ''SS''
      else [c])"

definition upper :: "string \<Rightarrow> string" where
  "upper s = concat (map upper_char s)"

definition lower_char :: "char \<Rightarrow> char" where
  "lower_char c =
     (let n = of_char c :: nat in
      if (65 \<le> n \<and> n \<le> 90) \<or> (192 \<le> n \<and> n \<le> 222 \<and> n \<noteq> 215) then char_of (n + 32)
      else c)"

definition lower :: "string \<Rightarrow> string" where
  "lower s = map lower_char s"

subsection \<open>TuringMachine\<close>

text \<open>
  \<open>__init__(tape_str, transitions, start_state, accept_state, reject_state, blank)\<close>.
  \<open>transitions\<close> is \<open>None\<close> or a dict; \<open>transitions or {}\<close> is the empty table for both
  \<open>None\<close> and the empty dict.
\<close>

definition init :: "string \<Rightarrow> table option \<Rightarrow> label \<Rightarrow> label \<Rightarrow> label \<Rightarrow> symbol \<Rightarrow> machine" where
  "init tape_str tbl start accept reject blk =
     \<lparr> blank = blk,
       tape = (if tape_str \<noteq> [] then py_list tape_str else [blk]),
       head = 0,
       start_state = start,
       state = start,
       accept_state = accept,
       reject_state = reject,
       transitions = (case tbl of None \<Rightarrow> Map.empty | Some t \<Rightarrow> t) \<rparr>"

definition ensure_head_in_bounds :: "machine \<Rightarrow> machine" where
  "ensure_head_in_bounds m =
     (if head m < 0 then
        (let add = replicate (nat \<bar>head m\<bar>) (blank m)
         in m\<lparr>tape := add @ tape m, head := head m + int (length add)\<rparr>)
      else if head m \<ge> int (length (tape m)) then
        (let add = replicate (nat (head m - int (length (tape m)) + 1)) (blank m)
         in m\<lparr>tape := tape m @ add\<rparr>)
      else m)"

text \<open>
  \<open>step\<close> returns the boolean result together with the machine after the call, or the
  exception raised by an out-of-range tape access.
\<close>

definition halted :: "machine \<Rightarrow> bool" where
  "halted m \<longleftrightarrow> state m = accept_state m \<or> state m = reject_state m"

definition move_head :: "string \<Rightarrow> int \<Rightarrow> int" where
  "move_head mv h =
     (if upper mv = ''R'' then h + 1
      else if upper mv = ''L'' then h - 1
      else h)"

definition step :: "machine \<Rightarrow> error + (bool \<times> machine)" where
  "step m =
     (if halted m then Inr (False, m)
      else
        let m1 = ensure_head_in_bounds m in
        case py_getitem (tape m1) (head m1) of
          Inl e \<Rightarrow> Inl e
        | Inr symb \<Rightarrow>
            (case transitions m1 (state m1, symb) of
               None \<Rightarrow> Inr (False, m1\<lparr>state := reject_state m1\<rparr>)
             | Some (write, mv, new_state) \<Rightarrow>
                 (case py_setitem (tape m1) (head m1) write of
                    Inl e \<Rightarrow> Inl e
                  | Inr tp \<Rightarrow>
                      Inr (True, m1\<lparr>tape := tp, head := move_head mv (head m1),
                                     state := new_state\<rparr>))))"

definition reset :: "machine \<Rightarrow> string \<Rightarrow> machine" where
  "reset m tape_str =
     m\<lparr>tape := (if tape_str \<noteq> [] then py_list tape_str else [blank m]),
       head := 0,
       state := start_state m\<rparr>"

text \<open>\<open>n\<close> successive calls of \<open>step\<close>: the results in call order and the final machine.\<close>

fun steps :: "nat \<Rightarrow> machine \<Rightarrow> error + (bool list \<times> machine)" where
  "steps 0 m = Inr ([], m)"
| "steps (Suc n) m =
     (case step m of
        Inl e \<Rightarrow> Inl e
      | Inr (b, m') \<Rightarrow>
          (case steps n m' of
             Inl e \<Rightarrow> Inl e
           | Inr (bs, m'') \<Rightarrow> Inr (b # bs, m'')))"

subsection \<open>Python string primitives used by the parser\<close>

text \<open>
  \<open>str.strip()\<close> removes the characters for which \<open>str.isspace\<close> holds; below 256
  these are 0x09..0x0D, 0x1C..0x20, 0x85 and 0xA0.
\<close>

definition is_space :: "char \<Rightarrow> bool" where
  "is_space c =
     (let n = of_char c :: nat in
      (9 \<le> n \<and> n \<le> 13) \<or> (28 \<le> n \<and> n \<le> 32) \<or> n = 133 \<or> n = 160)"

definition strip :: "string \<Rightarrow> string" where
  "strip s = rev (dropWhile is_space (rev (dropWhile is_space s)))"

text \<open>
  \<open>str.splitlines()\<close>: a line ends at 0x0A..0x0D, 0x1C..0x1E or 0x85, the pair
  CR LF counts as one boundary, and no empty last line is produced.
\<close>

definition is_linebreak :: "char \<Rightarrow> bool" where
  "is_linebreak c =
     (let n = of_char c :: nat in
      (10 \<le> n \<and> n \<le> 13) \<or> (28 \<le> n \<and> n \<le> 30) \<or> n = 133)"

fun splitlines_from :: "string \<Rightarrow> string \<Rightarrow> string list" where
  "splitlines_from cur [] = (if cur = [] then [] else [cur])"
| "splitlines_from cur [c] =
     (if is_linebreak c then [cur] else [cur @ [c]])"
| "splitlines_from cur (c # d # cs) =
     (if c = CHR 0x0D \<and> d = CHR 0x0A then cur # splitlines_from [] cs
      else if is_linebreak c then cur # splitlines_from [] (d # cs)
      else splitlines_from (cur @ [c]) (d # cs))"

definition splitlines :: "string \<Rightarrow> string list" where
  "splitlines s = splitlines_from [] s"

text \<open>
  \<open>partition_at sep s\<close> cuts \<open>s\<close> at the leftmost occurrence of \<open>sep\<close>;
  \<open>sub in s\<close>, \<open>s.split(sep, n)\<close> and \<open>s.startswith(p)\<close> are built on it.
\<close>

fun partition_at :: "string \<Rightarrow> string \<Rightarrow> (string \<times> string) option" where
  "partition_at sep [] = (if sep = [] then Some ([], []) else None)"
| "partition_at sep (c # cs) =
     (if take (length sep) (c # cs) = sep then Some ([], drop (length sep) (c # cs))
      else (case partition_at sep cs of
              None \<Rightarrow> None
            | Some (a, b) \<Rightarrow> Some (c # a, b)))"

definition contains :: "string \<Rightarrow> string \<Rightarrow> bool" where
  "contains s sub = (partition_at sub s \<noteq> None)"

fun split_max :: "string \<Rightarrow> string \<Rightarrow> nat \<Rightarrow> string list" where
  "split_max s sep 0 = [s]"
| "split_max s sep (Suc n) =
     (case partition_at sep s of
        None \<Rightarrow> [s]
      | Some (a, b) \<Rightarrow> a # split_max b sep n)"

definition startswith :: "string \<Rightarrow> string \<Rightarrow> bool" where
  "startswith s p = (take (length p) s = p)"

text \<open>Tuple unpacking \<open>a, b = xs\<close> and \<open>a, b, c = xs\<close>, with Python's ValueError.\<close>

definition unpack2 :: "'a list \<Rightarrow> error + ('a \<times> 'a)" where
  "unpack2 xs =
     (case xs of
        [a, b] \<Rightarrow> Inr (a, b)
      | _ \<Rightarrow> if length xs < 2 then Inl (NotEnoughValues 2 (length xs)) else Inl (TooManyValues 2))"

definition unpack3 :: "'a list \<Rightarrow> error + ('a \<times> 'a \<times> 'a)" where
  "unpack3 xs =
     (case xs of
        [a, b, c] \<Rightarrow> Inr (a, b, c)
      | _ \<Rightarrow> if length xs < 3 then Inl (NotEnoughValues 3 (length xs)) else Inl (TooManyValues 3))"

subsection \<open>parse_tm_description\<close>

text \<open>The five values the parser returns, as they stand while the lines are read.\<close>

record description =
  d_transitions :: table
  d_start :: label
  d_accept :: label
  d_reject :: label
  d_tape :: string

definition initial_description :: description where
  "initial_description =
     \<lparr> d_transitions = Map.empty, d_start = ''q0'', d_accept = ''q_accept'',
       d_reject = ''q_reject'', d_tape = ''_'' \<rparr>"

definition blank_token :: "string \<Rightarrow> string" where
  "blank_token s = (if lower s = ''blank'' then ''_'' else s)"

definition parse_transition :: "string \<Rightarrow> description \<Rightarrow> error + description" where
  "parse_transition line d =
     (case unpack2 (split_max line ''->'' 1) of
        Inl e \<Rightarrow> Inl e
      | Inr (left, right) \<Rightarrow>
          (case unpack2 (map strip (split_max left '','' 1)) of
             Inl e \<Rightarrow> Inl e
           | Inr (st, symb) \<Rightarrow>
               (case unpack3 (map strip (split_max right '','' 2)) of
                  Inl e \<Rightarrow> Inl e
                | Inr (write_symbol, mv, new_state) \<Rightarrow>
                    Inr (d\<lparr>d_transitions := (d_transitions d)
                            ((st, blank_token symb) \<mapsto>
                               (blank_token write_symbol, upper mv, new_state))\<rparr>))))"

definition parse_directive :: "string \<Rightarrow> description \<Rightarrow> error + description" where
  "parse_directive line d =
     (case unpack2 (map strip (split_max line '':'' 1)) of
        Inl e \<Rightarrow> Inl e
      | Inr (k, val) \<Rightarrow>
          (let key = upper k in
           if key = ''START'' then Inr (d\<lparr>d_start := val\<rparr>)
           else if key = ''ACCEPT'' then Inr (d\<lparr>d_accept := val\<rparr>)
           else if key = ''REJECT'' then Inr (d\<lparr>d_reject := val\<rparr>)
           else if key = ''TAPE'' then Inr (d\<lparr>d_tape := (if val \<noteq> [] then val else ''_'')\<rparr>)
           else Inr d))"

text \<open>The body of the loop over the lines, for one raw line.\<close>

definition parse_line :: "string \<Rightarrow> description \<Rightarrow> error + description" where
  "parse_line raw d =
     (let line = strip raw in
      if line = [] \<or> startswith line ''#'' then Inr d
      else if contains line ''->'' then parse_transition line d
      else if contains line '':'' then parse_directive line d
      else Inr d)"

fun parse_lines :: "string list \<Rightarrow> description \<Rightarrow> error + description" where
  "parse_lines [] d = Inr d"
| "parse_lines (raw # rest) d =
     (case parse_line raw d of
        Inl e \<Rightarrow> Inl e
      | Inr d' \<Rightarrow> parse_lines rest d')"

definition parse_tm_description :: "string \<Rightarrow> error + description" where
  "parse_tm_description text = parse_lines (splitlines text) initial_description"

subsection \<open>The two callers of the parser in UTMVisualizer\<close>

text \<open>
  Of the window only the field \<open>self.tm\<close> is modelled (\<open>None\<close> before the first
  machine exists); \<open>raw\<close> is the content of the text widget.  Both callers catch the
  parser's exception, show a message box and return.
\<close>

definition parse_and_create_tm :: "string \<Rightarrow> machine option \<Rightarrow> machine option" where
  "parse_and_create_tm raw tm =
     (case parse_tm_description raw of
        Inl e \<Rightarrow> tm
      | Inr d \<Rightarrow>
          Some (init (d_tape d) (Some (d_transitions d)) (d_start d) (d_accept d)
                  (d_reject d) ''_''))"

definition reset_tm :: "string \<Rightarrow> machine option \<Rightarrow> machine option" where
  "reset_tm raw tm =
     (case tm of
        None \<Rightarrow> None
      | Some m \<Rightarrow>
          (case parse_tm_description raw of
             Inl e \<Rightarrow> Some m
           | Inr d \<Rightarrow>
               Some (reset (m\<lparr>transitions := d_transitions d, start_state := d_start d,
                               accept_state := d_accept d, reject_state := d_reject d\<rparr>)
                       (d_tape d))))"

subsection \<open>Input classes and scenario machines\<close>

text \<open>
  A raw line that the parser treats as a transition line: after stripping it is not
  empty, is no comment and contains the arrow.
\<close>

definition is_transition_line :: "string \<Rightarrow> bool" where
  "is_transition_line raw =
     (let line = strip raw in
      line \<noteq> [] \<and> \<not> startswith line ''#'' \<and> contains line ''->'')"

text \<open>
  A transition line with too few fields under the parser's own splitting: fewer than
  two fields left of the first arrow, or fewer than three to the right of it.
\<close>

definition too_few_fields :: "string \<Rightarrow> bool" where
  "too_few_fields raw =
     (is_transition_line raw \<and>
      (case partition_at ''->'' (strip raw) of
         None \<Rightarrow> False
       | Some (left, right) \<Rightarrow>
           length (split_max left '','' 1) < 2 \<or> length (split_max right '','' 2) < 3))"

text \<open>The only exceptions a failed unpacking of a transition line can carry.\<close>

definition unpack_errors :: "error set" where
  "unpack_errors = {NotEnoughValues 2 1, NotEnoughValues 3 1, NotEnoughValues 3 2}"

text \<open>Scenario 1 of the specification: replace a by b.\<close>

definition scenario1_table :: table where
  "scenario1_table =
     [(''q0'', ''a'') \<mapsto> (''b'', ''R'', ''q0''),
      (''q0'', ''b'') \<mapsto> (''b'', ''R'', ''q0''),
      (''q0'', ''_'') \<mapsto> (''_'', ''S'', ''q_accept'')]"

definition scenario1 :: machine where
  "scenario1 = init ''aabb_'' (Some scenario1_table) ''q0'' ''q_accept'' ''q_reject'' ''_''"

text \<open>Scenario 2: a symbol without a transition.\<close>

definition scenario2_table :: table where
  "scenario2_table = [(''q0'', ''1'') \<mapsto> (''1'', ''R'', ''q0'')]"

definition scenario2 :: machine where
  "scenario2 = init ''10'' (Some scenario2_table) ''q0'' ''q_accept'' ''q_reject'' ''_''"

text \<open>Scenario 3: a move to the left of cell 0.\<close>

definition scenario3_table :: table where
  "scenario3_table = [(''q0'', ''x'') \<mapsto> (''x'', ''L'', ''q1'')]"

definition scenario3 :: machine where
  "scenario3 = init ''x'' (Some scenario3_table) ''q0'' ''q_accept'' ''q_reject'' ''_''"

text \<open>A table entry whose move is a lower-case letter, as the constructor accepts it.\<close>

definition lower_r_table :: table where
  "lower_r_table = [(''q0'', ''a'') \<mapsto> (''c'', ''r'', ''q1'')]"

definition lower_r_machine :: machine where
  "lower_r_machine = init ''ab'' (Some lower_r_table) ''q0'' ''q_accept'' ''q_reject'' ''_''"

text \<open>A description whose second line lacks the third field right of the arrow.\<close>

definition short_line_text :: string where
  "short_line_text = ''q0,a -> b,R,q0'' @ [CHR 0x0A] @ ''q0,b -> b,R''"

text \<open>
  Three further machines: a left move from cell 0 into the accept state, a left move
  from cell 0 followed by a transition on the blank, and a transition into the accept
  state that writes a new symbol and moves right.
\<close>

definition halt_left_table :: table where
  "halt_left_table = [(''q0'', ''x'') \<mapsto> (''y'', ''L'', ''q_accept'')]"

definition halt_left_machine :: machine where
  "halt_left_machine = init ''x'' (Some halt_left_table) ''q0'' ''q_accept'' ''q_reject'' ''_''"

definition left_then_right_table :: table where
  "left_then_right_table =
     [(''q0'', ''x'') \<mapsto> (''y'', ''L'', ''q1''),
      (''q1'', ''_'') \<mapsto> (''z'', ''R'', ''q2'')]"

definition left_then_right_machine :: machine where
  "left_then_right_machine =
     init ''x'' (Some left_then_right_table) ''q0'' ''q_accept'' ''q_reject'' ''_''"

definition final_move_table :: table where
  "final_move_table = [(''q0'', ''a'') \<mapsto> (''c'', ''R'', ''q_accept'')]"

definition final_move_machine :: machine where
  "final_move_machine = init ''ab'' (Some final_move_table) ''q0'' ''q_accept'' ''q_reject'' ''_''"

section \<open>Properties of the machine engine\<close>

subsection \<open>Tape access after normalization\<close>

lemma py_getitem_in_range:
  "0 \<le> i \<Longrightarrow> i < int (length xs) \<Longrightarrow> py_getitem xs i = Inr (xs ! nat i)"
  by (simp add: py_getitem_def py_pos_def)

lemma py_setitem_in_range:
  "0 \<le> i \<Longrightarrow> i < int (length xs) \<Longrightarrow> py_setitem xs i v = Inr (xs[nat i := v])"
  by (simp add: py_setitem_def py_pos_def)

lemma ensure_head_nonneg: "0 \<le> head (ensure_head_in_bounds m)"
  by (simp add: ensure_head_in_bounds_def Let_def)

lemma ensure_head_below_length:
  "head (ensure_head_in_bounds m) < int (length (tape (ensure_head_in_bounds m)))"
  by (simp add: ensure_head_in_bounds_def Let_def)

lemma ensure_frame:
  "state (ensure_head_in_bounds m) = state m"
  "blank (ensure_head_in_bounds m) = blank m"
  "start_state (ensure_head_in_bounds m) = start_state m"
  "accept_state (ensure_head_in_bounds m) = accept_state m"
  "reject_state (ensure_head_in_bounds m) = reject_state m"
  "transitions (ensure_head_in_bounds m) = transitions m"
  by (simp_all add: ensure_head_in_bounds_def Let_def)

lemma ensure_in_range_id:
  "0 \<le> head m \<Longrightarrow> head m < int (length (tape m)) \<Longrightarrow> ensure_head_in_bounds m = m"
  by (simp add: ensure_head_in_bounds_def)

lemma ensure_length_mono: "length (tape m) \<le> length (tape (ensure_head_in_bounds m))"
  by (simp add: ensure_head_in_bounds_def Let_def)

subsection \<open>The three outcomes of a step\<close>

lemma step_halted: "halted m \<Longrightarrow> step m = Inr (False, m)"
  by (simp add: step_def)

lemma step_missing:
  assumes "\<not> halted m"
    and "transitions m (state m,
           tape (ensure_head_in_bounds m) ! nat (head (ensure_head_in_bounds m))) = None"
  shows "step m = Inr (False, (ensure_head_in_bounds m)\<lparr>state := reject_state m\<rparr>)"
  using assms
  by (simp add: step_def Let_def py_getitem_in_range ensure_head_nonneg
      ensure_head_below_length ensure_frame)

lemma step_found:
  assumes "\<not> halted m"
    and "transitions m (state m,
           tape (ensure_head_in_bounds m) ! nat (head (ensure_head_in_bounds m)))
         = Some (w, mv, ns)"
  shows "step m = Inr (True, (ensure_head_in_bounds m)
           \<lparr>tape := (tape (ensure_head_in_bounds m))[nat (head (ensure_head_in_bounds m)) := w],
            head := move_head mv (head (ensure_head_in_bounds m)),
            state := ns\<rparr>)"
  using assms
  by (simp add: step_def Let_def py_getitem_in_range py_setitem_in_range ensure_head_nonneg
      ensure_head_below_length ensure_frame)

text \<open>A step never raises: after normalization the head is a valid index.\<close>

lemma step_total: "\<exists>b m'. step m = Inr (b, m')"
proof (cases "halted m")
  case True
  then show ?thesis by (auto simp: step_halted)
next
  case False
  show ?thesis
  proof (cases "transitions m (state m,
      tape (ensure_head_in_bounds m) ! nat (head (ensure_head_in_bounds m)))")
    case None
    with False show ?thesis by (auto simp: step_missing)
  next
    case (Some t)
    obtain w mv ns where "t = (w, mv, ns)" by (cases t)
    with False Some show ?thesis by (auto simp: step_found)
  qed
qed

lemma steps_halted: "halted m \<Longrightarrow> steps n m = Inr (replicate n False, m)"
  by (induction n) (simp_all add: step_halted)

text \<open>Upper-casing of the move letters that occur below.\<close>

lemma upper_values:
  "upper ''R'' = ''R''" "upper ''L'' = ''L''" "upper ''S'' = ''S''" "upper ''r'' = ''R''"
  "upper ''x'' = ''X''"
  by code_simp+

lemmas machine_eval =
  init_def py_list_def halted_def ensure_head_in_bounds_def step_def py_getitem_def
  py_setitem_def py_pos_def move_head_def upper_values reset_def

section \<open>Properties of the parser\<close>

text \<open>
  A transition line fails exactly in one of the two unpackings after the arrow has been
  found; every other line is accepted.  The parser therefore raises if and only if some
  line has too few fields, and the exception carries the two counts only.
\<close>

lemma split_max_1_length:
  "length (split_max s sep 1) < 2 \<longleftrightarrow> partition_at sep s = None"
  by (simp split: option.splits)

lemma split_max_2_length:
  "length (split_max s sep 2) < 3 \<longleftrightarrow>
     (case partition_at sep s of None \<Rightarrow> True | Some (a, b) \<Rightarrow> partition_at sep b = None)"
  by (simp add: numeral_2_eq_2 split: option.splits)

lemma parse_transition_unfold:
  "parse_transition line d =
     (case partition_at ''->'' line of
        None \<Rightarrow> Inl (NotEnoughValues 2 1)
      | Some (left, right) \<Rightarrow>
          (case partition_at '','' left of
             None \<Rightarrow> Inl (NotEnoughValues 2 1)
           | Some (st, symb) \<Rightarrow>
               (case partition_at '','' right of
                  None \<Rightarrow> Inl (NotEnoughValues 3 1)
                | Some (w, rest) \<Rightarrow>
                    (case partition_at '','' rest of
                       None \<Rightarrow> Inl (NotEnoughValues 3 2)
                     | Some (mv, ns) \<Rightarrow>
                         Inr (d\<lparr>d_transitions := (d_transitions d)
                                 ((strip st, blank_token (strip symb)) \<mapsto>
                                    (blank_token (strip w), upper (strip mv), strip ns))\<rparr>)))))"
  by (simp add: parse_transition_def unpack2_def unpack3_def numeral_2_eq_2
      split: option.splits)

lemma parse_directive_ok:
  "contains line '':'' \<Longrightarrow> \<exists>d'. parse_directive line d = Inr d'"
  by (auto simp: parse_directive_def contains_def unpack2_def Let_def)

lemma parse_transition_cases:
  assumes "partition_at ''->'' line = Some (left, right)"
  shows "if length (split_max left '','' 1) < 2 \<or> length (split_max right '','' 2) < 3
         then \<exists>e\<in>unpack_errors. parse_transition line d = Inl e
         else \<exists>d'. parse_transition line d = Inr d'"
  unfolding split_max_1_length split_max_2_length parse_transition_unfold
  using assms by (auto simp: unpack_errors_def split: option.splits)

lemma parse_line_cases:
  "if too_few_fields raw then \<exists>e\<in>unpack_errors. parse_line raw d = Inl e
   else \<exists>d'. parse_line raw d = Inr d'"
proof (cases "is_transition_line raw")
  case True
  then obtain left right where p: "partition_at ''->'' (strip raw) = Some (left, right)"
    by (auto simp: is_transition_line_def contains_def Let_def)
  from True have pl: "parse_line raw d = parse_transition (strip raw) d"
    by (simp add: parse_line_def is_transition_line_def Let_def)
  show ?thesis
    using parse_transition_cases [OF p, of d] True
    by (simp add: too_few_fields_def p pl split: if_splits)
next
  case False
  then have "\<exists>d'. parse_line raw d = Inr d'"
    using parse_directive_ok [of "strip raw" d]
    by (auto simp: parse_line_def is_transition_line_def Let_def)
  with False show ?thesis by (simp add: too_few_fields_def)
qed

lemma parse_lines_error:
  "\<exists>raw\<in>set ls. too_few_fields raw \<Longrightarrow> \<exists>e\<in>unpack_errors. parse_lines ls d = Inl e"
proof (induction ls arbitrary: d)
  case Nil
  then show ?case by simp
next
  case (Cons raw rest)
  show ?case
  proof (cases "too_few_fields raw")
    case True
    then show ?thesis using parse_line_cases [of raw d] by auto
  next
    case False
    then obtain d' where d': "parse_line raw d = Inr d'"
      using parse_line_cases [of raw d] by auto
    from False Cons.prems have "\<exists>r\<in>set rest. too_few_fields r" by auto
    from Cons.IH [OF this, of d'] show ?thesis by (simp add: d')
  qed
qed

lemma parse_lines_ok:
  "\<forall>raw\<in>set ls. \<not> too_few_fields raw \<Longrightarrow> \<exists>d'. parse_lines ls d = Inr d'"
proof (induction ls arbitrary: d)
  case Nil
  then show ?case by simp
next
  case (Cons raw rest)
  then obtain d' where d': "parse_line raw d = Inr d'"
    using parse_line_cases [of raw d] by auto
  from Cons.prems have "\<forall>r\<in>set rest. \<not> too_few_fields r" by simp
  from Cons.IH [OF this, of d'] show ?case by (simp add: d')
qed

lemmas parser_eval =
  parse_tm_description_def parse_line_def parse_transition_def parse_directive_def
  strip_def is_space_def splitlines_def is_linebreak_def contains_def startswith_def
  unpack2_def unpack3_def blank_token_def lower_def lower_char_def upper_def upper_char_def
  is_transition_line_def too_few_fields_def

section \<open>The claims\<close>

text \<open>
  C3.  A machine whose current state is the accept state or the reject state is not
  changed by \<open>step\<close>, which returns false; any number of further calls again returns
  false each time and leaves tape, head and state as they are.
\<close>

theorem C3_halted_step_noop:
  assumes "state m = accept_state m \<or> state m = reject_state m"
  shows "step m = Inr (False, m) \<and> steps n m = Inr (replicate n False, m)"
  using assms by (simp add: step_halted steps_halted halted_def)

theorem C3_halted_step_noop_witness:
  "(state (scenario3\<lparr>state := ''q_reject''\<rparr>) = accept_state (scenario3\<lparr>state := ''q_reject''\<rparr>)
    \<or> state (scenario3\<lparr>state := ''q_reject''\<rparr>) = reject_state (scenario3\<lparr>state := ''q_reject''\<rparr>))
   \<and> step (scenario3\<lparr>state := ''q_reject''\<rparr>) = Inr (False, scenario3\<lparr>state := ''q_reject''\<rparr>)
   \<and> steps 3 (scenario3\<lparr>state := ''q_reject''\<rparr>)
       = Inr ([False, False, False], scenario3\<lparr>state := ''q_reject''\<rparr>)"
proof -
  have h: "state (scenario3\<lparr>state := ''q_reject''\<rparr>) = accept_state (scenario3\<lparr>state := ''q_reject''\<rparr>)
    \<or> state (scenario3\<lparr>state := ''q_reject''\<rparr>) = reject_state (scenario3\<lparr>state := ''q_reject''\<rparr>)"
    by (simp add: scenario3_def init_def)
  have r: "replicate 3 False = [False, False, False]"
    by (simp add: numeral_3_eq_3)
  show ?thesis
    using h C3_halted_step_noop [OF h, of 3] by (simp only: r simp_thms)
qed

text \<open>
  C4.  When the machine is not halted and the table has no entry for the current state
  and the symbol under the normalized head, \<open>step\<close> returns false and only sets the
  state to the reject state: tape and head stay as normalization left them, so the
  symbol that was read is not rewritten.
\<close>

theorem C4_missing_transition_rejects:
  assumes "\<not> (state m = accept_state m \<or> state m = reject_state m)"
    and "m1 = ensure_head_in_bounds m"
    and "transitions m (state m, tape m1 ! nat (head m1)) = None"
  shows "step m = Inr (False, m1\<lparr>state := reject_state m\<rparr>)
         \<and> tape (m1\<lparr>state := reject_state m\<rparr>) = tape m1
         \<and> head (m1\<lparr>state := reject_state m\<rparr>) = head m1
         \<and> 0 \<le> head m1 \<and> head m1 < int (length (tape m1))"
  using assms
  by (simp add: step_missing halted_def ensure_head_nonneg ensure_head_below_length)

theorem C4_missing_transition_rejects_witness:
  "\<not> (state (scenario2\<lparr>head := 1\<rparr>) = accept_state (scenario2\<lparr>head := 1\<rparr>)
       \<or> state (scenario2\<lparr>head := 1\<rparr>) = reject_state (scenario2\<lparr>head := 1\<rparr>))
   \<and> ensure_head_in_bounds (scenario2\<lparr>head := 1\<rparr>) = scenario2\<lparr>head := 1\<rparr>
   \<and> tape (scenario2\<lparr>head := 1\<rparr>) ! nat (head (scenario2\<lparr>head := 1\<rparr>)) = ''0''
   \<and> transitions (scenario2\<lparr>head := 1\<rparr>) (state (scenario2\<lparr>head := 1\<rparr>), ''0'') = None
   \<and> step (scenario2\<lparr>head := 1\<rparr>) = Inr (False, scenario2\<lparr>head := 1, state := ''q_reject''\<rparr>)"
proof -
  let ?m = "scenario2\<lparr>head := 1\<rparr>"
  have h1: "\<not> (state ?m = accept_state ?m \<or> state ?m = reject_state ?m)"
    by (simp add: scenario2_def init_def)
  have h2: "?m = ensure_head_in_bounds ?m"
    by (simp add: scenario2_def machine_eval)
  have h3: "tape ?m ! nat (head ?m) = ''0''"
    by (simp add: scenario2_def machine_eval)
  have h4: "transitions ?m (state ?m, ''0'') = None"
    by (simp add: scenario2_def scenario2_table_def init_def)
  have h5: "transitions ?m (state ?m, tape ?m ! nat (head ?m)) = None"
    using h4 by (simp only: h3)
  have r: "reject_state ?m = ''q_reject''"
    by (simp add: scenario2_def init_def)
  show ?thesis
    using h1 h2 [symmetric] h3 h4 C4_missing_transition_rejects [OF h1 h2 h5]
    by (simp add: r)
qed

text \<open>
  C5.  When the machine is not halted and the table maps the current state and the
  symbol under the normalized head to \<open>(w, mv, ns)\<close>, \<open>step\<close> returns true, writes
  \<open>w\<close> at the head, sets the state to \<open>ns\<close> and moves the head one cell to the right
  if \<open>mv\<close> upper-cases to R, one cell to the left if it upper-cases to L, and not at
  all for any other \<open>mv\<close>.
\<close>

theorem C5_found_transition:
  assumes "\<not> (state m = accept_state m \<or> state m = reject_state m)"
    and "m1 = ensure_head_in_bounds m"
    and "transitions m (state m, tape m1 ! nat (head m1)) = Some (w, mv, ns)"
  shows "step m = Inr (True,
           m1\<lparr>tape := (tape m1)[nat (head m1) := w],
              head := (if upper mv = ''R'' then head m1 + 1
                       else if upper mv = ''L'' then head m1 - 1
                       else head m1),
              state := ns\<rparr>)
         \<and> 0 \<le> head m1 \<and> head m1 < int (length (tape m1))"
  using assms
  by (simp add: step_found halted_def move_head_def ensure_head_nonneg ensure_head_below_length)

theorem C5_found_transition_witness:
  "\<not> (state lower_r_machine = accept_state lower_r_machine
       \<or> state lower_r_machine = reject_state lower_r_machine)
   \<and> ensure_head_in_bounds lower_r_machine = lower_r_machine
   \<and> transitions lower_r_machine
        (state lower_r_machine, tape lower_r_machine ! nat (head lower_r_machine))
       = Some (''c'', ''r'', ''q1'')
   \<and> upper ''r'' = ''R''
   \<and> step lower_r_machine
       = Inr (True, lower_r_machine\<lparr>tape := [''c'', ''b''], head := 1, state := ''q1''\<rparr>)"
proof -
  let ?m = "lower_r_machine"
  have h1: "\<not> (state ?m = accept_state ?m \<or> state ?m = reject_state ?m)"
    by (simp add: lower_r_machine_def init_def)
  have h2: "?m = ensure_head_in_bounds ?m"
    by (simp add: lower_r_machine_def machine_eval)
  have h3: "transitions ?m (state ?m, tape ?m ! nat (head ?m)) = Some (''c'', ''r'', ''q1'')"
    by (simp add: lower_r_machine_def lower_r_table_def machine_eval)
  have u: "upper ''r'' = ''R''"
    by (rule upper_values)
  have t: "tape ?m = [''a'', ''b'']" and hd: "head ?m = 0"
    by (simp_all add: lower_r_machine_def machine_eval)
  show ?thesis
    using h1 h2 [symmetric] h3 u C5_found_transition [OF h1 h2 h3]
    by (simp add: t hd)
qed

text \<open>
  C6.  Scenario 1: started on the tape \<open>aabb_\<close> in state q0 with the head on cell 0,
  five calls of \<open>step\<close> all return true and leave the tape \<open>bbbb_\<close>, the head on
  cell 4 and the state q_accept.
\<close>

theorem C6_replace_a_by_b:
  "steps 5 scenario1
     = Inr ([True, True, True, True, True],
            scenario1\<lparr>tape := [''b'', ''b'', ''b'', ''b'', ''_''], head := 4,
                       state := ''q_accept''\<rparr>)"
  by (simp add: eval_nat_numeral scenario1_def scenario1_table_def machine_eval)

text \<open>
  C7.  Head normalization is idempotent.  One call puts \<open>|head|\<close> blanks in front of the
  tape when the head is negative and adds \<open>|head|\<close> to the head, or appends
  \<open>head - length + 1\<close> blanks when the head is at or beyond the length; afterwards
  \<open>0 \<le> head < length\<close>.  This holds for every machine, in particular for every
  machine with a non-empty tape.
\<close>

theorem C7_ensure_head_in_bounds:
  "ensure_head_in_bounds (ensure_head_in_bounds m) = ensure_head_in_bounds m
   \<and> (head m < 0 \<longrightarrow>
        tape (ensure_head_in_bounds m) = replicate (nat \<bar>head m\<bar>) (blank m) @ tape m
        \<and> head (ensure_head_in_bounds m) = head m + \<bar>head m\<bar>)
   \<and> (int (length (tape m)) \<le> head m \<longrightarrow>
        tape (ensure_head_in_bounds m)
          = tape m @ replicate (nat (head m - int (length (tape m)) + 1)) (blank m)
        \<and> head (ensure_head_in_bounds m) = head m)
   \<and> 0 \<le> head (ensure_head_in_bounds m)
   \<and> head (ensure_head_in_bounds m) < int (length (tape (ensure_head_in_bounds m)))"
proof -
  have idem: "ensure_head_in_bounds (ensure_head_in_bounds m) = ensure_head_in_bounds m"
    by (rule ensure_in_range_id) (rule ensure_head_nonneg, rule ensure_head_below_length)
  have left: "head m < 0 \<longrightarrow>
        tape (ensure_head_in_bounds m) = replicate (nat \<bar>head m\<bar>) (blank m) @ tape m
        \<and> head (ensure_head_in_bounds m) = head m + \<bar>head m\<bar>"
    by (simp add: ensure_head_in_bounds_def Let_def)
  have right: "int (length (tape m)) \<le> head m \<longrightarrow>
        tape (ensure_head_in_bounds m)
          = tape m @ replicate (nat (head m - int (length (tape m)) + 1)) (blank m)
        \<and> head (ensure_head_in_bounds m) = head m"
    by (simp add: ensure_head_in_bounds_def Let_def)
  show ?thesis
    using idem left right ensure_head_nonneg [of m] ensure_head_below_length [of m]
    by blast
qed

theorem C7_ensure_head_in_bounds_witness:
  "head (scenario3\<lparr>head := - 2\<rparr>) < 0
   \<and> ensure_head_in_bounds (scenario3\<lparr>head := - 2\<rparr>)
       = scenario3\<lparr>tape := [''_'', ''_'', ''x''], head := 0\<rparr>
   \<and> ensure_head_in_bounds (ensure_head_in_bounds (scenario3\<lparr>head := - 2\<rparr>))
       = ensure_head_in_bounds (scenario3\<lparr>head := - 2\<rparr>)
   \<and> int (length (tape (scenario3\<lparr>head := 2\<rparr>))) \<le> head (scenario3\<lparr>head := 2\<rparr>)
   \<and> ensure_head_in_bounds (scenario3\<lparr>head := 2\<rparr>)
       = scenario3\<lparr>tape := [''x'', ''_'', ''_''], head := 2\<rparr>
   \<and> ensure_head_in_bounds (ensure_head_in_bounds (scenario3\<lparr>head := 2\<rparr>))
       = ensure_head_in_bounds (scenario3\<lparr>head := 2\<rparr>)"
proof -
  have l: "head (scenario3\<lparr>head := - 2\<rparr>) < 0"
    by simp
  have r: "int (length (tape (scenario3\<lparr>head := 2\<rparr>))) \<le> head (scenario3\<lparr>head := 2\<rparr>)"
    by (simp add: scenario3_def init_def py_list_def)
  have el: "ensure_head_in_bounds (scenario3\<lparr>head := - 2\<rparr>)
       = scenario3\<lparr>tape := [''_'', ''_'', ''x''], head := 0\<rparr>"
    by (simp add: scenario3_def init_def py_list_def ensure_head_in_bounds_def
        numeral_2_eq_2)
  have er: "ensure_head_in_bounds (scenario3\<lparr>head := 2\<rparr>)
       = scenario3\<lparr>tape := [''x'', ''_'', ''_''], head := 2\<rparr>"
    by (simp add: scenario3_def init_def py_list_def ensure_head_in_bounds_def
        numeral_2_eq_2)
  show ?thesis
    using l r el er C7_ensure_head_in_bounds [of "scenario3\<lparr>head := - 2\<rparr>"]
      C7_ensure_head_in_bounds [of "scenario3\<lparr>head := 2\<rparr>"]
    by blast
qed

text \<open>
  C8.  \<open>reset\<close> replaces the tape by the one-character strings of the given text, or
  by a single blank when the text is empty, sets the head to 0 and the state to the
  start state, and leaves the table, the three state labels and the blank symbol as
  they are.
\<close>

theorem C8_reset:
  "tape (reset m tape_str) = (if tape_str = [] then [blank m] else map (\<lambda>c. [c]) tape_str)
   \<and> head (reset m tape_str) = 0
   \<and> state (reset m tape_str) = start_state m
   \<and> transitions (reset m tape_str) = transitions m
   \<and> start_state (reset m tape_str) = start_state m
   \<and> accept_state (reset m tape_str) = accept_state m
   \<and> reject_state (reset m tape_str) = reject_state m
   \<and> blank (reset m tape_str) = blank m"
  by (simp add: reset_def py_list_def)

text \<open>
  C9.  When \<open>step\<close> returns false, the state of the machine afterwards is its accept
  state or its reject state (the labels are those from before the call).  A
  transition taken from a non-halted state into the accept or the reject state is
  still applied in full and that call returns true: the symbol is written at the
  normalized head and the head moves one cell right, one cell left or not at all as
  the move upper-cases to R, to L or to anything else.  The halting test is made only
  when \<open>step\<close> is entered.
\<close>

theorem C9_false_means_halted:
  "(step m = Inr (False, m') \<longrightarrow>
      (state m' = accept_state m' \<or> state m' = reject_state m')
      \<and> accept_state m' = accept_state m \<and> reject_state m' = reject_state m)
   \<and> (\<not> (state m = accept_state m \<or> state m = reject_state m)
       \<and> m1 = ensure_head_in_bounds m
       \<and> transitions m (state m, tape m1 ! nat (head m1)) = Some (w, mv, ns)
       \<and> (ns = accept_state m \<or> ns = reject_state m) \<longrightarrow>
      step m = Inr (True, m1\<lparr>tape := (tape m1)[nat (head m1) := w],
                             head := (if upper mv = ''R'' then head m1 + 1
                                      else if upper mv = ''L'' then head m1 - 1
                                      else head m1),
                             state := ns\<rparr>)
      \<and> 0 \<le> head m1 \<and> head m1 < int (length (tape m1))
      \<and> accept_state m1 = accept_state m \<and> reject_state m1 = reject_state m)"
proof -
  have a: "step m = Inr (False, m') \<longrightarrow>
      (state m' = accept_state m' \<or> state m' = reject_state m')
      \<and> accept_state m' = accept_state m \<and> reject_state m' = reject_state m"
  proof (cases "halted m")
    case True
    then show ?thesis by (auto simp: step_halted halted_def)
  next
    case False
    show ?thesis
    proof (cases "transitions m (state m,
        tape (ensure_head_in_bounds m) ! nat (head (ensure_head_in_bounds m)))")
      case None
      with False show ?thesis by (auto simp: step_missing ensure_frame)
    next
      case (Some t)
      obtain w' mv' ns' where "t = (w', mv', ns')" by (cases t)
      with False Some show ?thesis by (simp add: step_found)
    qed
  qed
  have b: "\<not> (state m = accept_state m \<or> state m = reject_state m)
       \<and> m1 = ensure_head_in_bounds m
       \<and> transitions m (state m, tape m1 ! nat (head m1)) = Some (w, mv, ns)
       \<and> (ns = accept_state m \<or> ns = reject_state m) \<longrightarrow>
      step m = Inr (True, m1\<lparr>tape := (tape m1)[nat (head m1) := w],
                             head := (if upper mv = ''R'' then head m1 + 1
                                      else if upper mv = ''L'' then head m1 - 1
                                      else head m1),
                             state := ns\<rparr>)
      \<and> 0 \<le> head m1 \<and> head m1 < int (length (tape m1))
      \<and> accept_state m1 = accept_state m \<and> reject_state m1 = reject_state m"
    by (auto simp: step_found halted_def ensure_frame move_head_def ensure_head_nonneg
        ensure_head_below_length)
  from a b show ?thesis by blast
qed

theorem C9_false_means_halted_witness:
  "step (scenario2\<lparr>head := 1\<rparr>) = Inr (False, scenario2\<lparr>head := 1, state := ''q_reject''\<rparr>)
   \<and> state (scenario2\<lparr>head := 1, state := ''q_reject''\<rparr>)
       = reject_state (scenario2\<lparr>head := 1, state := ''q_reject''\<rparr>)
   \<and> \<not> (state final_move_machine = accept_state final_move_machine
          \<or> state final_move_machine = reject_state final_move_machine)
   \<and> ensure_head_in_bounds final_move_machine = final_move_machine
   \<and> transitions final_move_machine
        (state final_move_machine, tape final_move_machine ! nat (head final_move_machine))
       = Some (''c'', ''R'', ''q_accept'')
   \<and> ''q_accept'' = accept_state final_move_machine
   \<and> tape final_move_machine = [''a'', ''b'']
   \<and> head final_move_machine = 0
   \<and> step final_move_machine
       = Inr (True, final_move_machine\<lparr>tape := [''c'', ''b''], head := 1, state := ''q_accept''\<rparr>)"
proof -
  let ?m2 = "scenario2\<lparr>head := 1\<rparr>" and ?m = "final_move_machine"
  have s2: "step ?m2 = Inr (False, scenario2\<lparr>head := 1, state := ''q_reject''\<rparr>)"
    by (simp add: scenario2_def scenario2_table_def machine_eval)
  have c1: "(state (scenario2\<lparr>head := 1, state := ''q_reject''\<rparr>)
               = accept_state (scenario2\<lparr>head := 1, state := ''q_reject''\<rparr>)
             \<or> state (scenario2\<lparr>head := 1, state := ''q_reject''\<rparr>)
               = reject_state (scenario2\<lparr>head := 1, state := ''q_reject''\<rparr>))"
    using C9_false_means_halted [of ?m2 "scenario2\<lparr>head := 1, state := ''q_reject''\<rparr>"] s2
    by blast
  have r2: "state (scenario2\<lparr>head := 1, state := ''q_reject''\<rparr>)
       = reject_state (scenario2\<lparr>head := 1, state := ''q_reject''\<rparr>)"
    using c1 by (simp add: scenario2_def init_def)
  have n: "\<not> (state ?m = accept_state ?m \<or> state ?m = reject_state ?m)"
    by (simp add: final_move_machine_def init_def)
  have e: "?m = ensure_head_in_bounds ?m"
    by (simp add: final_move_machine_def init_def py_list_def ensure_head_in_bounds_def)
  have t: "tape ?m = [''a'', ''b'']" and hd: "head ?m = 0"
    by (simp_all add: final_move_machine_def init_def py_list_def)
  have k: "transitions ?m (state ?m, tape ?m ! nat (head ?m)) = Some (''c'', ''R'', ''q_accept'')"
    by (simp add: t hd) (simp add: final_move_machine_def final_move_table_def init_def)
  have a: "''q_accept'' = accept_state ?m"
    by (simp add: final_move_machine_def init_def)
  have c2: "step ?m = Inr (True, ?m\<lparr>tape := (tape ?m)[nat (head ?m) := ''c''],
                             head := (if upper ''R'' = ''R'' then head ?m + 1
                                      else if upper ''R'' = ''L'' then head ?m - 1
                                      else head ?m),
                             state := ''q_accept''\<rparr>)"
    using C9_false_means_halted [of ?m undefined ?m "''c''" "''R''" "''q_accept''"] n e k a
    by blast
  have c3: "step ?m = Inr (True, ?m\<lparr>tape := [''c'', ''b''], head := 1, state := ''q_accept''\<rparr>)"
    using c2 by (simp add: t hd upper_values)
  show ?thesis
    using s2 r2 n e [symmetric] k a t hd c3 by blast
qed

text \<open>
  C10.  The tape is never empty: the constructor and \<open>reset\<close> produce a tape of
  length at least one, a single blank for the empty text; \<open>ensure_head_in_bounds\<close>
  and \<open>step\<close> never shorten the tape (and \<open>step\<close> always returns), so both keep a
  tape of length at least one that long.
\<close>

theorem C10_tape_never_empty:
  "1 \<le> length (tape (init tape_str tbl start accept reject blk))
   \<and> tape (init [] tbl start accept reject blk) = [blk]
   \<and> 1 \<le> length (tape (reset m tape_str))
   \<and> tape (reset m []) = [blank m]
   \<and> length (tape m) \<le> length (tape (ensure_head_in_bounds m))
   \<and> (\<exists>b m'. step m = Inr (b, m') \<and> length (tape m) \<le> length (tape m'))
   \<and> (1 \<le> length (tape m) \<longrightarrow>
        1 \<le> length (tape (ensure_head_in_bounds m))
        \<and> (\<exists>b m'. step m = Inr (b, m') \<and> 1 \<le> length (tape m')))"
proof -
  have i: "1 \<le> length (tape (init tape_str tbl start accept reject blk))"
    by (cases tape_str) (simp_all add: init_def py_list_def)
  have i0: "tape (init [] tbl start accept reject blk) = [blk]"
    by (simp add: init_def)
  have r: "1 \<le> length (tape (reset m tape_str))"
    by (cases tape_str) (simp_all add: reset_def py_list_def)
  have r0: "tape (reset m []) = [blank m]"
    by (simp add: reset_def)
  have e: "length (tape m) \<le> length (tape (ensure_head_in_bounds m))"
    by (rule ensure_length_mono)
  have s: "\<exists>b m'. step m = Inr (b, m') \<and> length (tape m) \<le> length (tape m')"
  proof (cases "halted m")
    case True
    then show ?thesis by (auto simp: step_halted)
  next
    case False
    show ?thesis
    proof (cases "transitions m (state m,
        tape (ensure_head_in_bounds m) ! nat (head (ensure_head_in_bounds m)))")
      case None
      with False e show ?thesis by (auto simp: step_missing)
    next
      case (Some t)
      obtain w mv ns where "t = (w, mv, ns)" by (cases t)
      with False Some e show ?thesis by (auto simp: step_found)
    qed
  qed
  from s obtain b m' where bm: "step m = Inr (b, m')" "length (tape m) \<le> length (tape m')"
    by blast
  have p: "1 \<le> length (tape m) \<longrightarrow>
        1 \<le> length (tape (ensure_head_in_bounds m))
        \<and> (\<exists>b m'. step m = Inr (b, m') \<and> 1 \<le> length (tape m'))"
  proof
    assume one: "1 \<le> length (tape m)"
    with e have "1 \<le> length (tape (ensure_head_in_bounds m))" by linarith
    moreover from one bm have "\<exists>b m'. step m = Inr (b, m') \<and> 1 \<le> length (tape m')"
      by (intro exI [of _ b] exI [of _ m']) simp
    ultimately show "1 \<le> length (tape (ensure_head_in_bounds m))
        \<and> (\<exists>b m'. step m = Inr (b, m') \<and> 1 \<le> length (tape m'))" by blast
  qed
  from i i0 r r0 e s p show ?thesis by blast
qed

theorem C10_tape_never_empty_witness:
  "1 \<le> length (tape scenario3)
   \<and> 1 \<le> length (tape (ensure_head_in_bounds scenario3))
   \<and> (\<exists>b m'. step scenario3 = Inr (b, m') \<and> 1 \<le> length (tape m'))
   \<and> tape (init [] None ''q0'' ''q_accept'' ''q_reject'' ''_'') = [''_'']
   \<and> tape (reset scenario3 []) = [''_'']"
proof -
  have h: "1 \<le> length (tape scenario3)"
    by (simp add: scenario3_def init_def py_list_def)
  have i: "tape (init [] None ''q0'' ''q_accept'' ''q_reject'' ''_'') = [''_'']"
    by (simp add: init_def)
  have r: "tape (reset scenario3 []) = [''_'']"
    by (simp add: reset_def scenario3_def init_def)
  show ?thesis
    using h i r C10_tape_never_empty [of "[]" None "''q0''" "''q_accept''" "''q_reject''" "''_''"
        scenario3]
    by blast
qed

text \<open>
  C1, as the code has it.  The claim that a step moving left from cell 0 extends the
  tape within that same step fails: in scenario 3 the tape after the step is still
  \<open>x\<close>, of length one, and the head is \<open>-1\<close>.
\<close>

theorem C1_counterexample:
  "step scenario3 = Inr (True, scenario3\<lparr>head := - 1, state := ''q1''\<rparr>)
   \<and> tape (scenario3\<lparr>head := - 1, state := ''q1''\<rparr>) = [''x'']
   \<and> length (tape (scenario3\<lparr>head := - 1, state := ''q1''\<rparr>)) \<noteq> 2
   \<and> head (scenario3\<lparr>head := - 1, state := ''q1''\<rparr>) \<noteq> 0"
  by (simp add: scenario3_def scenario3_table_def machine_eval)

text \<open>
  C1, amended.  A step taken from cell 0 of a non-empty tape with a transition whose
  move upper-cases to L writes the symbol, returns true and leaves the head at \<open>-1\<close>
  on a tape of unchanged length.  If the new state is neither the accept nor the
  reject state, the next call of \<open>step\<close> normalizes the head on entry: it puts
  exactly one blank in front, so that the old cell 0 is cell 1, sets the head to 0
  and reads that blank; without an entry for it the call rejects on the extended
  tape, with an entry it writes at cell 0 and moves from there.  If the new state is
  the accept or the reject state, no later call of \<open>step\<close> extends the tape: every
  call returns false and changes nothing.
\<close>

theorem C1_left_move_extends_on_next_step:
  assumes "\<not> (state m = accept_state m \<or> state m = reject_state m)"
    and "head m = 0"
    and "tape m \<noteq> []"
    and "transitions m (state m, tape m ! 0) = Some (w, mv, ns)"
    and "upper mv = ''L''"
    and "m' = m\<lparr>tape := (tape m)[0 := w], head := - 1, state := ns\<rparr>"
    and "mN = m\<lparr>tape := blank m # (tape m)[0 := w], head := 0, state := ns\<rparr>"
  shows "step m = Inr (True, m')
         \<and> length (tape m') = length (tape m)
         \<and> ensure_head_in_bounds m' = mN
         \<and> (ns \<noteq> accept_state m \<and> ns \<noteq> reject_state m \<longrightarrow>
              step m' =
                (case transitions m (ns, blank m) of
                   None \<Rightarrow> Inr (False, mN\<lparr>state := reject_state m\<rparr>)
                 | Some (w2, mv2, ns2) \<Rightarrow>
                     Inr (True, mN\<lparr>tape := w2 # (tape m)[0 := w],
                                    head := (if upper mv2 = ''R'' then 1
                                             else if upper mv2 = ''L'' then - 1
                                             else 0),
                                    state := ns2\<rparr>)))
         \<and> (ns = accept_state m \<or> ns = reject_state m \<longrightarrow>
              steps k m' = Inr (replicate k False, m'))"
proof -
  have e: "ensure_head_in_bounds m = m"
    using assms(2,3) by (simp add: ensure_in_range_id)
  have "step m = Inr (True, m\<lparr>tape := (tape m)[0 := w], head := move_head mv 0, state := ns\<rparr>)"
    using step_found [of m w mv ns] assms(1,2,4) by (simp add: e halted_def)
  moreover have "move_head mv 0 = - 1"
    using assms(5) by (simp add: move_head_def)
  ultimately have first: "step m = Inr (True, m')"
    by (simp add: assms(6))
  have len: "length (tape m') = length (tape m)"
    by (simp add: assms(6))
  have norm: "ensure_head_in_bounds m' = mN"
    by (simp add: assms(6,7) ensure_head_in_bounds_def)
  have cell: "tape mN ! nat (head mN) = blank m"
    by (simp add: assms(7))
  have fr: "state m' = ns" "transitions m' = transitions m" "reject_state m' = reject_state m"
    "accept_state m' = accept_state m"
    by (simp_all add: assms(6))
  have nxt: "ns \<noteq> accept_state m \<and> ns \<noteq> reject_state m \<longrightarrow>
              step m' =
                (case transitions m (ns, blank m) of
                   None \<Rightarrow> Inr (False, mN\<lparr>state := reject_state m\<rparr>)
                 | Some (w2, mv2, ns2) \<Rightarrow>
                     Inr (True, mN\<lparr>tape := w2 # (tape m)[0 := w],
                                    head := (if upper mv2 = ''R'' then 1
                                             else if upper mv2 = ''L'' then - 1
                                             else 0),
                                    state := ns2\<rparr>))"
  proof
    assume nh: "ns \<noteq> accept_state m \<and> ns \<noteq> reject_state m"
    then have nh': "\<not> halted m'"
      by (simp add: halted_def fr)
    show "step m' =
                (case transitions m (ns, blank m) of
                   None \<Rightarrow> Inr (False, mN\<lparr>state := reject_state m\<rparr>)
                 | Some (w2, mv2, ns2) \<Rightarrow>
                     Inr (True, mN\<lparr>tape := w2 # (tape m)[0 := w],
                                    head := (if upper mv2 = ''R'' then 1
                                             else if upper mv2 = ''L'' then - 1
                                             else 0),
                                    state := ns2\<rparr>))"
    proof (cases "transitions m (ns, blank m)")
      case None
      then have "transitions m' (state m',
          tape (ensure_head_in_bounds m') ! nat (head (ensure_head_in_bounds m'))) = None"
        by (simp add: norm cell fr)
      from step_missing [OF nh' this] show ?thesis
        by (simp add: None norm fr)
    next
      case (Some t)
      obtain w2 mv2 ns2 where t: "t = (w2, mv2, ns2)" by (cases t)
      have "transitions m' (state m',
          tape (ensure_head_in_bounds m') ! nat (head (ensure_head_in_bounds m')))
          = Some (w2, mv2, ns2)"
        using Some t by (simp add: norm cell fr)
      from step_found [OF nh' this] show ?thesis
        by (simp add: Some t norm assms(7) move_head_def)
    qed
  qed
  have stay: "ns = accept_state m \<or> ns = reject_state m \<longrightarrow>
              steps k m' = Inr (replicate k False, m')"
  proof
    assume "ns = accept_state m \<or> ns = reject_state m"
    then have "halted m'" by (simp add: halted_def fr)
    then show "steps k m' = Inr (replicate k False, m')" by (rule steps_halted)
  qed
  from first len norm nxt stay show ?thesis by blast
qed

theorem C1_left_move_extends_on_next_step_witness:
  "\<not> (state scenario3 = accept_state scenario3 \<or> state scenario3 = reject_state scenario3)
   \<and> head scenario3 = 0
   \<and> tape scenario3 = [''x'']
   \<and> transitions scenario3 (state scenario3, ''x'') = Some (''x'', ''L'', ''q1'')
   \<and> upper ''L'' = ''L''
   \<and> step scenario3 = Inr (True, scenario3\<lparr>tape := [''x''], head := - 1, state := ''q1''\<rparr>)
   \<and> ensure_head_in_bounds (scenario3\<lparr>tape := [''x''], head := - 1, state := ''q1''\<rparr>)
       = scenario3\<lparr>tape := [''_'', ''x''], head := 0, state := ''q1''\<rparr>
   \<and> step (scenario3\<lparr>tape := [''x''], head := - 1, state := ''q1''\<rparr>)
       = Inr (False, scenario3\<lparr>tape := [''_'', ''x''], head := 0, state := ''q_reject''\<rparr>)
   \<and> step left_then_right_machine
       = Inr (True, left_then_right_machine\<lparr>tape := [''y''], head := - 1, state := ''q1''\<rparr>)
   \<and> step (left_then_right_machine\<lparr>tape := [''y''], head := - 1, state := ''q1''\<rparr>)
       = Inr (True, left_then_right_machine\<lparr>tape := [''z'', ''y''], head := 1, state := ''q2''\<rparr>)
   \<and> step halt_left_machine
       = Inr (True, halt_left_machine\<lparr>tape := [''y''], head := - 1, state := ''q_accept''\<rparr>)
   \<and> steps 2 (halt_left_machine\<lparr>tape := [''y''], head := - 1, state := ''q_accept''\<rparr>)
       = Inr ([False, False],
              halt_left_machine\<lparr>tape := [''y''], head := - 1, state := ''q_accept''\<rparr>)"
proof -
  have h1: "\<not> (state scenario3 = accept_state scenario3 \<or> state scenario3 = reject_state scenario3)"
    by (simp add: scenario3_def init_def)
  have h2: "head scenario3 = 0"
    by (simp add: scenario3_def init_def)
  have t: "tape scenario3 = [''x'']"
    by (simp add: scenario3_def init_def py_list_def)
  have h3: "tape scenario3 \<noteq> []"
    by (simp add: t)
  have k: "transitions scenario3 (state scenario3, ''x'') = Some (''x'', ''L'', ''q1'')"
    by (simp add: scenario3_def scenario3_table_def init_def)
  have h4: "transitions scenario3 (state scenario3, tape scenario3 ! 0) = Some (''x'', ''L'', ''q1'')"
    using k by (simp add: t)
  have h5: "upper ''L'' = ''L''"
    by (rule upper_values)
  have f3: "blank scenario3 = ''_''" "accept_state scenario3 = ''q_accept''"
    "reject_state scenario3 = ''q_reject''" "transitions scenario3 (''q1'', ''_'') = None"
    by (simp_all add: scenario3_def scenario3_table_def init_def)
  have s3: "step scenario3 = Inr (True, scenario3\<lparr>tape := [''x''], head := - 1, state := ''q1''\<rparr>)
     \<and> ensure_head_in_bounds (scenario3\<lparr>tape := [''x''], head := - 1, state := ''q1''\<rparr>)
       = scenario3\<lparr>tape := [''_'', ''x''], head := 0, state := ''q1''\<rparr>
     \<and> step (scenario3\<lparr>tape := [''x''], head := - 1, state := ''q1''\<rparr>)
       = Inr (False, scenario3\<lparr>tape := [''_'', ''x''], head := 0, state := ''q_reject''\<rparr>)"
    using C1_left_move_extends_on_next_step [OF h1 h2 h3 h4 h5 refl refl, of 0]
    by (simp add: t f3)
  have g1: "\<not> (state left_then_right_machine = accept_state left_then_right_machine
              \<or> state left_then_right_machine = reject_state left_then_right_machine)"
    by (simp add: left_then_right_machine_def init_def)
  have g2: "head left_then_right_machine = 0"
    by (simp add: left_then_right_machine_def init_def)
  have gt: "tape left_then_right_machine = [''x'']"
    by (simp add: left_then_right_machine_def init_def py_list_def)
  have g3: "tape left_then_right_machine \<noteq> []"
    by (simp add: gt)
  have g4: "transitions left_then_right_machine
      (state left_then_right_machine, tape left_then_right_machine ! 0)
      = Some (''y'', ''L'', ''q1'')"
    by (simp add: gt) (simp add: left_then_right_machine_def left_then_right_table_def init_def)
  have gf: "blank left_then_right_machine = ''_''"
    "accept_state left_then_right_machine = ''q_accept''"
    "reject_state left_then_right_machine = ''q_reject''"
    "transitions left_then_right_machine (''q1'', ''_'') = Some (''z'', ''R'', ''q2'')"
    by (simp_all add: left_then_right_machine_def left_then_right_table_def init_def)
  have sg: "step left_then_right_machine
       = Inr (True, left_then_right_machine\<lparr>tape := [''y''], head := - 1, state := ''q1''\<rparr>)
     \<and> step (left_then_right_machine\<lparr>tape := [''y''], head := - 1, state := ''q1''\<rparr>)
       = Inr (True, left_then_right_machine\<lparr>tape := [''z'', ''y''], head := 1, state := ''q2''\<rparr>)"
    using C1_left_move_extends_on_next_step [OF g1 g2 g3 g4 h5 refl refl, of 0]
    by (simp add: gt gf upper_values)
  have a1: "\<not> (state halt_left_machine = accept_state halt_left_machine
              \<or> state halt_left_machine = reject_state halt_left_machine)"
    by (simp add: halt_left_machine_def init_def)
  have a2: "head halt_left_machine = 0"
    by (simp add: halt_left_machine_def init_def)
  have at: "tape halt_left_machine = [''x'']"
    by (simp add: halt_left_machine_def init_def py_list_def)
  have a3: "tape halt_left_machine \<noteq> []"
    by (simp add: at)
  have a4: "transitions halt_left_machine (state halt_left_machine, tape halt_left_machine ! 0)
      = Some (''y'', ''L'', ''q_accept'')"
    by (simp add: at) (simp add: halt_left_machine_def halt_left_table_def init_def)
  have af: "accept_state halt_left_machine = ''q_accept''"
    by (simp add: halt_left_machine_def init_def)
  have r2: "replicate 2 False = [False, False]"
    by (simp add: numeral_2_eq_2)
  have sa: "step halt_left_machine
       = Inr (True, halt_left_machine\<lparr>tape := [''y''], head := - 1, state := ''q_accept''\<rparr>)
     \<and> steps 2 (halt_left_machine\<lparr>tape := [''y''], head := - 1, state := ''q_accept''\<rparr>)
       = Inr ([False, False],
              halt_left_machine\<lparr>tape := [''y''], head := - 1, state := ''q_accept''\<rparr>)"
    using C1_left_move_extends_on_next_step [OF a1 a2 a3 a4 h5 refl refl, of 2]
    by (simp add: at af r2)
  from h1 h2 t k h5 s3 sg sa show ?thesis by blast
qed

text \<open>
  C2, as the code has it.  The exception raised for a malformed transition line does
  not identify the line: two descriptions with different short lines raise the same
  value, Python's ValueError for a failed unpacking with the counts 3 and 2.  A line
  with more than three comma-separated fields right of the arrow raises nothing: the
  split stops after two commas and the rest becomes part of the next state.
\<close>

theorem C2_counterexample:
  "parse_tm_description ''q0,a -> b,R'' = Inl (NotEnoughValues 3 2)
   \<and> parse_tm_description ''q7,z -> y,L'' = Inl (NotEnoughValues 3 2)
   \<and> parse_tm_description ''q0,a -> b,R,q1,q2''
       = Inr (initial_description
               \<lparr>d_transitions := [(''q0'', ''a'') \<mapsto> (''b'', ''R'', ''q1,q2'')]\<rparr>)"
proof -
  have a: "parse_tm_description ''q0,a -> b,R'' = Inl (NotEnoughValues 3 2)"
    by (simp add: parser_eval eval_nat_numeral)
  have b: "parse_tm_description ''q7,z -> y,L'' = Inl (NotEnoughValues 3 2)"
    by (simp add: parser_eval eval_nat_numeral)
  have u: "upper ''R'' = ''R''"
    by (rule upper_values)
  have c: "parse_tm_description ''q0,a -> b,R,q1,q2''
       = Inr (initial_description
               \<lparr>d_transitions := [(''q0'', ''a'') \<mapsto> (''b'', ''R'', ''q1,q2'')]\<rparr>)"
    by (simp add: parse_tm_description_def parse_line_def parse_transition_def
        strip_def is_space_def splitlines_def is_linebreak_def contains_def startswith_def
        unpack2_def unpack3_def blank_token_def lower_def lower_char_def u
        eval_nat_numeral initial_description_def)
  from a b c show ?thesis by blast
qed

text \<open>
  C2, amended.  If some line of the text is a transition line with fewer than two
  fields left of the first arrow or fewer than three right of it (split at the first
  comma, respectively the first two commas), the parser raises a ValueError that
  carries only the expected and the actual number of fields, and returns nothing;
  \<open>parse_and_create_tm\<close> then constructs no machine and \<open>reset_tm\<close> changes nothing,
  so the machine held before is the machine held afterwards.
\<close>

theorem C2_too_few_fields_raises:
  assumes "raw \<in> set (splitlines text)"
    and "too_few_fields raw"
  shows "(\<exists>e\<in>unpack_errors. parse_tm_description text = Inl e)
         \<and> parse_and_create_tm text tm = tm
         \<and> reset_tm text tm = tm"
proof -
  from assms have "\<exists>r\<in>set (splitlines text). too_few_fields r"
    by blast
  then obtain e where e: "e \<in> unpack_errors" "parse_tm_description text = Inl e"
    unfolding parse_tm_description_def
    using parse_lines_error [of "splitlines text" initial_description] by blast
  have "parse_and_create_tm text tm = tm"
    by (simp add: parse_and_create_tm_def e(2))
  moreover have "reset_tm text tm = tm"
    by (cases tm) (simp_all add: reset_tm_def e(2))
  ultimately show ?thesis using e by blast
qed

theorem C2_too_few_fields_raises_witness:
  "''q0,b -> b,R'' \<in> set (splitlines short_line_text)
   \<and> too_few_fields ''q0,b -> b,R''
   \<and> parse_tm_description short_line_text = Inl (NotEnoughValues 3 2)
   \<and> parse_and_create_tm short_line_text (Some scenario3) = Some scenario3
   \<and> reset_tm short_line_text (Some scenario3) = Some scenario3
   \<and> parse_and_create_tm short_line_text None = None"
proof -
  have h1: "''q0,b -> b,R'' \<in> set (splitlines short_line_text)"
    by (simp add: short_line_text_def splitlines_def is_linebreak_def)
  have h2: "too_few_fields ''q0,b -> b,R''"
    by (simp add: parser_eval eval_nat_numeral)
  have p: "parse_tm_description short_line_text = Inl (NotEnoughValues 3 2)"
    by (simp add: short_line_text_def parser_eval eval_nat_numeral)
  show ?thesis
    using h1 h2 p C2_too_few_fields_raises [OF h1 h2, of "Some scenario3"]
      C2_too_few_fields_raises [OF h1 h2, of None]
    by blast
qed

end
